theory Spec2Isabelle
  imports Complex_Main
begin

section \<open>Numbers, errors\<close>

text \<open>
  The Python sources compute on floats. Prices are modelled as exact reals (the
  specification's quotes are "arbitrary precision"), so every statement below is about the
  arithmetic the code writes down, not about rounding. A raised exception is a value of
  \<open>py_error\<close>.
\<close>

datatype py_error = ZeroDivisionError | TypeError | IndexError

section \<open>ADXTracker (live\_nifty\_fourbar\_adx\_jugaad.py)\<close>

text \<open>
  \<open>self.prev\<close> is a dict with the keys close, high, low, tr\_s, +dm\_s, -dm\_s, adx;
  it is \<open>None\<close> until \<open>seed\<close> has run.
\<close>

record prev_state =
  prev_close :: real
  prev_high :: real
  prev_low :: real
  tr_s :: real
  plus_dm_s :: real
  minus_dm_s :: real
  adx :: real

record ADXTracker =
  period :: int
  ready :: bool
  prev :: "prev_state option"

definition ADXTracker_init :: "int \<Rightarrow> ADXTracker" where
  "ADXTracker_init n = \<lparr>period = n, ready = False, prev = None\<rparr>"

definition ADX_PERIOD :: int where
  "ADX_PERIOD = 14"

definition seed :: "ADXTracker \<Rightarrow> real \<Rightarrow> ADXTracker" where
  "seed t c =
     t\<lparr>prev := Some \<lparr>prev_close = c, prev_high = c, prev_low = c, tr_s = 1 / 10 ^ 9,
                      plus_dm_s = 0, minus_dm_s = 0, adx = 0\<rparr>,
       ready := True\<rparr>"

text \<open>Lines 92 to 95 of \<open>update\<close>: the two raw directional moves and the branch that
  keeps one of them.\<close>

definition directional_moves :: "prev_state \<Rightarrow> real \<Rightarrow> real \<Rightarrow> real \<times> real" where
  "directional_moves pv h l =
     (let plus_dm = max (h - prev_high pv) 0;
          minus_dm = max (prev_low pv - l) 0
      in if plus_dm < minus_dm then (0, minus_dm) else (plus_dm, 0))"

text \<open>
  \<open>update\<close> returns the new tracker and the value it returns in Python. Reading
  \<open>self.prev["close"]\<close> while \<open>prev\<close> is \<open>None\<close> raises TypeError, dividing by a
  zero period raises ZeroDivisionError. A float used as a condition is true when it is
  not zero.
\<close>

definition update :: "ADXTracker \<Rightarrow> real \<Rightarrow> real \<Rightarrow> real \<Rightarrow> py_error + (ADXTracker \<times> real)" where
  "update t0 h l c =
     (let t = (if \<not> ready t0 then seed t0 c else t0) in
      case prev t of
        None \<Rightarrow> Inl TypeError
      | Some pv \<Rightarrow>
          let n = real_of_int (period t);
              tr = max (max (h - l) \<bar>h - prev_close pv\<bar>) \<bar>l - prev_close pv\<bar>;
              (plus_dm, minus_dm) = directional_moves pv h l
          in if period t = 0 then Inl ZeroDivisionError
             else
               let tr_s' = tr_s pv - tr_s pv / n + tr;
                   pdm_s = plus_dm_s pv - plus_dm_s pv / n + plus_dm;
                   mdm_s = minus_dm_s pv - minus_dm_s pv / n + minus_dm;
                   plus_di = (if tr_s' \<noteq> 0 then 100 * (pdm_s / tr_s') else 0);
                   minus_di = (if tr_s' \<noteq> 0 then 100 * (mdm_s / tr_s') else 0);
                   dx = (if plus_di + minus_di \<noteq> 0
                         then 100 * (\<bar>plus_di - minus_di\<bar> / (plus_di + minus_di)) else 0);
                   adx' = (if adx pv \<noteq> 0 then (adx pv * (n - 1) + dx) / n else dx)
               in Inr (t\<lparr>prev := Some \<lparr>prev_close = c, prev_high = h, prev_low = l,
                                         tr_s = tr_s', plus_dm_s = pdm_s, minus_dm_s = mdm_s,
                                         adx = adx'\<rparr>\<rparr>, adx'))"

text \<open>A sequence of calls \<open>update(h, l, c)\<close> on one tracker: the tracker and the returned
  value after each call, or the first exception.\<close>

fun updates :: "ADXTracker \<Rightarrow> (real \<times> real \<times> real) list \<Rightarrow> py_error + (ADXTracker \<times> real) list" where
  "updates t [] = Inr []"
| "updates t ((h, l, c) # bs) =
     (case update t h l c of
        Inl e \<Rightarrow> Inl e
      | Inr (t', a) \<Rightarrow>
          (case updates t' bs of Inl e \<Rightarrow> Inl e | Inr rs \<Rightarrow> Inr ((t', a) # rs)))"

section \<open>Bars and the four-bar signal\<close>

text \<open>
  A row of the \<open>bars\<close> data frame (columns datetime, open, high, low, close). A datetime
  is a count of microseconds of local (IST) time, so that \<open>ts.minute\<close> is
  \<open>(ts div 60000000) mod 60\<close> and \<open>timedelta(minutes=15)\<close> is \<open>900000000\<close>.
\<close>

record bar =
  bar_datetime :: int
  bar_open :: real
  bar_high :: real
  bar_low :: real
  bar_close :: real

record signal =
  dir :: string
  trigger :: real
  box_high :: real
  box_low :: real

definition minute_of :: "int \<Rightarrow> int" where
  "minute_of ts = (ts div 60000000) mod 60"

definition floor_15m :: "int \<Rightarrow> int" where
  "floor_15m ts =
     (let mins = minute_of ts - (minute_of ts mod 15)
      in ts - ts mod 3600000000 + mins * 60000000)"

text \<open>Python's \<open>max\<close> and \<open>min\<close> of a non-empty sequence.\<close>

definition max_list :: "real list \<Rightarrow> real" where
  "max_list xs = foldl max (hd xs) (tl xs)"

definition min_list :: "real list \<Rightarrow> real" where
  "min_list xs = foldl min (hd xs) (tl xs)"

definition four_bar_signal :: "bar list \<Rightarrow> signal option" where
  "four_bar_signal df_15m =
     (if length df_15m < 4 then None
      else
        let last4 = drop (length df_15m - 4) df_15m;
            c = map bar_close last4; h = map bar_high last4; l = map bar_low last4;
            inc = list_all (\<lambda>i. c ! i > c ! (i - 1)) [1..<4];
            dec = list_all (\<lambda>i. c ! i < c ! (i - 1)) [1..<4];
            bh = max_list h; bl = min_list l
        in if inc then Some \<lparr>dir = ''LONG'', trigger = bh, box_high = bh, box_low = bl\<rparr>
           else if dec then Some \<lparr>dir = ''SHORT'', trigger = bl, box_high = bh, box_low = bl\<rparr>
           else None)"

section \<open>The runner's tick: aggregation and evaluation on a new slot\<close>

text \<open>Lines 152 to 162 of \<open>run\<close>, with \<open>slot = floor_15m(nowi)\<close> passed in: a new row when
  there is none or the last row is older than the slot, else the last row is updated.\<close>

definition aggregate :: "bar list \<Rightarrow> int \<Rightarrow> real \<Rightarrow> bar list" where
  "aggregate bars slot spot =
     (if length bars = 0 \<or> bar_datetime (last bars) < slot
      then bars @ [\<lparr>bar_datetime = slot, bar_open = spot, bar_high = spot, bar_low = spot,
                    bar_close = spot\<rparr>]
      else bars[length bars - 1 :=
                  (last bars)\<lparr>bar_high := max (bar_high (last bars)) spot,
                                bar_low := min (bar_low (last bars)) spot,
                                bar_close := spot\<rparr>])"

text \<open>The price samples of a run, each with the time it was observed at; a sample whose
  price is zero is skipped by the loop (line 148).\<close>

fun aggregate_all :: "bar list \<Rightarrow> (int \<times> real) list \<Rightarrow> bar list" where
  "aggregate_all bars [] = bars"
| "aggregate_all bars ((nowi, spot) # qs) =
     (if spot = 0 then aggregate_all bars qs
      else aggregate_all (aggregate bars (floor_15m nowi) spot) qs)"

text \<open>
  The state the loop carries from tick to tick, without the broker, and what one
  evaluation (lines 165 to 176) computes: the three values given to
  \<open>adx.update\<close>, the value it returns and the signal. The entry and exit policy that
  follows in \<open>run\<close> reads the option chain from the network and is not modelled.
\<close>

record run_state =
  bars :: "bar list"
  last_completed :: "int option"
  adx_tracker :: ADXTracker

record evaluation =
  day_high :: real
  day_low :: real
  day_close :: real
  adx_val :: real
  sig_val :: "signal option"

definition evaluate :: "run_state \<Rightarrow> int \<Rightarrow> real \<Rightarrow> py_error + (run_state \<times> evaluation option)" where
  "evaluate st slot spot =
     (let completed = slot - 900000000 in
      if (case last_completed st of None \<Rightarrow> True | Some lc \<Rightarrow> completed > lc)
      then
        (case (if ready (adx_tracker st)
               then (case prev (adx_tracker st) of
                       None \<Rightarrow> Inl TypeError | Some pv \<Rightarrow> Inr (prev_close pv))
               else Inr spot) of
           Inl e \<Rightarrow> Inl e
         | Inr pc \<Rightarrow>
             if bars st = [] then Inl IndexError
             else
               let dh = max pc (bar_high (last (bars st)));
                   dl = min pc (bar_low (last (bars st)));
                   dc = bar_close (last (bars st))
               in (case update (adx_tracker st) dh dl dc of
                     Inl e \<Rightarrow> Inl e
                   | Inr (t', v) \<Rightarrow>
                       let df_comp = filter (\<lambda>b. bar_datetime b \<le> completed) (bars st);
                           sg = (if length df_comp \<ge> 4 then four_bar_signal df_comp else None)
                       in Inr (st\<lparr>last_completed := Some completed, adx_tracker := t'\<rparr>,
                               Some \<lparr>day_high = dh, day_low = dl, day_close = dc,
                                     adx_val = v, sig_val = sg\<rparr>)))
      else Inr (st, None))"

definition tick :: "run_state \<Rightarrow> int \<Rightarrow> real \<Rightarrow> py_error + (run_state \<times> evaluation option)" where
  "tick st nowi spot =
     (if spot = 0 then Inr (st, None)
      else
        let slot = floor_15m nowi
        in evaluate (st\<lparr>bars := aggregate (bars st) slot spot\<rparr>) slot spot)"

definition run_init :: run_state where
  "run_init = \<lparr>bars = [], last_completed = None, adx_tracker = ADXTracker_init ADX_PERIOD\<rparr>"

section \<open>PaperBroker (option\_chain.py)\<close>

text \<open>
  An option leg as \<open>_pick\<close> builds it. A value the chain does not give is \<open>None\<close>;
  \<open>symbol = None\<close> stands for a contract dict without the key \<open>symbol\<close>.
\<close>

record contract =
  expiry :: string
  strike :: int
  opt_type :: string
  ltp :: "real option"
  oi :: "real option"
  change_in_oi :: "real option"
  bid :: "real option"
  ask :: "real option"
  symbol :: "string option"

text \<open>\<open>self.position\<close> (keys side, entry, qty, contract) and a closed trade (keys side,
  entry\_price, exit\_price, qty, contract, entry\_time, exit\_time, pnl, capital\_post,
  reason).\<close>

record position_rec =
  side :: string
  entry :: real
  qty :: int
  pos_contract :: contract

record trade =
  trade_side :: string
  entry_price :: real
  exit_price :: real
  trade_qty :: int
  trade_contract :: contract
  entry_time :: "string option"
  exit_time :: string
  pnl :: real
  capital_post :: real
  reason :: "string option"

text \<open>
  A line of the log file. The message strings are kept as constructors, the two numbers of
  the insufficient-capital message as arguments rather than formatted; \<open>extra\<close> holds the
  fields \<open>record.update(extra)\<close> adds (entry\_price, contract, qty, capital, timestamp for
  OPEN; the trade for CLOSE).
\<close>

datatype message =
  Already_in_position
  | Insufficient_capital real real
  | Entered string
  | No_open_position_to_exit
  | Closed_position

datatype extra_fields =
  No_extra
  | Open_extra real contract int real string
  | Close_extra trade

record log_record =
  event :: string
  log_message :: message
  log_capital :: real
  log_time :: string
  log_extra :: extra_fields

text \<open>The broker object; \<open>log_lines\<close> is what has been appended to \<open>log_file\<close>.\<close>

record PaperBroker =
  initial_capital :: real
  capital :: real
  position :: "position_rec option"
  open_time :: "string option"
  closed_trades :: "trade list"
  log_file :: string
  slippage_pct :: real
  log_lines :: "log_record list"

definition PaperBroker_init :: "real \<Rightarrow> string \<Rightarrow> real \<Rightarrow> PaperBroker" where
  "PaperBroker_init ic lf sp =
     \<lparr>initial_capital = ic, capital = ic, position = None, open_time = None,
      closed_trades = [], log_file = lf, slippage_pct = sp, log_lines = []\<rparr>"

definition upper_char :: "char \<Rightarrow> char" where
  "upper_char ch =
     (let k = (of_char ch :: nat) in if 97 \<le> k \<and> k \<le> 122 then char_of (k - 32) else ch)"

definition upper :: "string \<Rightarrow> string" where
  "upper str = map upper_char str"

definition NSE_LOT_SIZE :: "(string \<times> int) list" where
  "NSE_LOT_SIZE = [(''NIFTY'', 50)]"

definition get_lot_size :: "string \<Rightarrow> int" where
  "get_lot_size nm = (case map_of NSE_LOT_SIZE (upper nm) of Some k \<Rightarrow> k | None \<Rightarrow> 50)"

text \<open>\<open>timestamp or datetime.now().isoformat()\<close>: the clock reading \<open>now\<close> is a
  parameter; \<open>None\<close> and the empty string are both false.\<close>

definition timestamp_or :: "string option \<Rightarrow> string \<Rightarrow> string" where
  "timestamp_or ts now = (case ts of None \<Rightarrow> now | Some str \<Rightarrow> if str = [] then now else str)"

definition log_event :: "PaperBroker \<Rightarrow> string \<Rightarrow> message \<Rightarrow> extra_fields \<Rightarrow> string \<Rightarrow> PaperBroker" where
  "log_event b ev msg ex now =
     b\<lparr>log_lines := log_lines b @
          [\<lparr>event = ev, log_message = msg, log_capital = capital b, log_time = now,
            log_extra = ex\<rparr>]\<rparr>"

definition enter :: "PaperBroker \<Rightarrow> string \<Rightarrow> real \<Rightarrow> contract \<Rightarrow> string option \<Rightarrow> string \<Rightarrow> PaperBroker \<times> bool" where
  "enter b sd price ct ts now =
     (if position b \<noteq> None
      then (log_event b ''REJECTED'' Already_in_position No_extra now, False)
      else
        let lot_size = get_lot_size (case symbol ct of None \<Rightarrow> ''NIFTY'' | Some nm \<Rightarrow> nm);
            q = lot_size;
            cost = price * real_of_int q
        in if capital b < cost
           then (log_event b ''REJECTED'' (Insufficient_capital (capital b) cost) No_extra now,
                 False)
           else
             let fill_price = price + (if sd = ''LONG'' then slippage_pct b * price
                                       else - slippage_pct b * price);
                 ot = timestamp_or ts now;
                 b1 = b\<lparr>position := Some \<lparr>side = sd, entry = fill_price, qty = q,
                                            pos_contract = ct\<rparr>,
                        open_time := Some ot,
                        capital := capital b - cost\<rparr>
             in (log_event b1 ''OPEN'' (Entered sd)
                   (Open_extra fill_price ct q (capital b1) ot) now, True))"

text \<open>\<open>exit\<close> returns \<open>False\<close> (here \<open>None\<close>) when there is no position, else the pnl.\<close>

definition exit :: "PaperBroker \<Rightarrow> real \<Rightarrow> string option \<Rightarrow> string option \<Rightarrow> string \<Rightarrow> PaperBroker \<times> real option" where
  "exit b price ts rsn now =
     (case position b of
        None \<Rightarrow> (log_event b ''REJECTED'' No_open_position_to_exit No_extra now, None)
      | Some pos \<Rightarrow>
          let sd = side pos; lot = real_of_int (qty pos); en = entry pos;
              fill_price = price - (if sd = ''LONG'' then slippage_pct b * price
                                    else - slippage_pct b * price);
              pl = (if sd = ''LONG'' then (fill_price - en) * lot else (en - fill_price) * lot);
              b1 = b\<lparr>capital := capital b + fill_price * lot\<rparr>;
              tr = \<lparr>trade_side = sd, entry_price = en, exit_price = fill_price,
                    trade_qty = qty pos, trade_contract = pos_contract pos,
                    entry_time = open_time b1, exit_time = timestamp_or ts now, pnl = pl,
                    capital_post = capital b1, reason = rsn\<rparr>;
              b2 = b1\<lparr>closed_trades := closed_trades b1 @ [tr], position := None,
                       open_time := None\<rparr>
          in (log_event b2 ''CLOSE'' Closed_position (Close_extra tr) now, Some pl))"

definition update_mark_to_market :: "PaperBroker \<Rightarrow> real \<Rightarrow> real" where
  "update_mark_to_market b last_price =
     (case position b of
        None \<Rightarrow> 0
      | Some pos \<Rightarrow>
          if side pos = ''LONG'' then (last_price - entry pos) * real_of_int (qty pos)
          else (entry pos - last_price) * real_of_int (qty pos))"



section \<open>Auxiliary definitions\<close>

text \<open>
  The steps of \<open>update\<close> by name, for the proofs: Wilder's smoothing, a directional
  index, the DX ratio, the true range, and the dict \<open>update\<close> stores. Lemma
  \<open>update_ready\<close> shows that \<open>update\<close> computes exactly these.
\<close>

definition wilder :: "real \<Rightarrow> real \<Rightarrow> real \<Rightarrow> real" where
  "wilder n s x = s - s / n + x"

definition di :: "real \<Rightarrow> real \<Rightarrow> real" where
  "di dm trs = (if trs \<noteq> 0 then 100 * (dm / trs) else 0)"

definition dx_of :: "real \<Rightarrow> real \<Rightarrow> real" where
  "dx_of a b = (if a + b \<noteq> 0 then 100 * (\<bar>a - b\<bar> / (a + b)) else 0)"

definition true_range :: "prev_state \<Rightarrow> real \<Rightarrow> real \<Rightarrow> real" where
  "true_range pv h l = max (max (h - l) \<bar>h - prev_close pv\<bar>) \<bar>l - prev_close pv\<bar>"

definition next_prev :: "int \<Rightarrow> prev_state \<Rightarrow> real \<Rightarrow> real \<Rightarrow> real \<Rightarrow> prev_state" where
  "next_prev k pv h l c =
     (let n = real_of_int k;
          trs = wilder n (tr_s pv) (true_range pv h l);
          pdm = wilder n (plus_dm_s pv) (fst (directional_moves pv h l));
          mdm = wilder n (minus_dm_s pv) (snd (directional_moves pv h l));
          dx = dx_of (di pdm trs) (di mdm trs)
      in \<lparr>prev_close = c, prev_high = h, prev_low = l, tr_s = trs, plus_dm_s = pdm,
          minus_dm_s = mdm,
          adx = (if adx pv \<noteq> 0 then (adx pv * (n - 1) + dx) / n else dx)\<rparr>)"

text \<open>The dict \<open>seed\<close> stores, and the invariant of a seeded tracker that \<open>update\<close>
  keeps for a period of at least 2.\<close>

definition seeded :: "real \<Rightarrow> prev_state" where
  "seeded c = \<lparr>prev_close = c, prev_high = c, prev_low = c, tr_s = 1 / 10 ^ 9,
                      plus_dm_s = 0, minus_dm_s = 0, adx = 0\<rparr>"

definition adx_inv :: "ADXTracker \<Rightarrow> bool" where
  "adx_inv t =
     (ready t \<and> 2 \<le> period t \<and>
      (case prev t of
         None \<Rightarrow> False
       | Some pv \<Rightarrow> 0 < tr_s pv \<and> 0 \<le> plus_dm_s pv \<and> 0 \<le> minus_dm_s pv \<and>
                    0 \<le> adx pv \<and> adx pv \<le> 100))"

text \<open>The window \<open>df.tail(4)\<close>, the bar a new slot opens with, and the ordering of a bar's
  four prices.\<close>

definition last4 :: "bar list \<Rightarrow> bar list" where
  "last4 df = drop (length df - 4) df"

definition flat_bar :: "int \<Rightarrow> real \<Rightarrow> bar" where
  "flat_bar ts x = \<lparr>bar_datetime = ts, bar_open = x, bar_high = x, bar_low = x, bar_close = x\<rparr>"

definition bar_ok :: "bar \<Rightarrow> bool" where
  "bar_ok b = (bar_low b \<le> bar_open b \<and> bar_open b \<le> bar_high b \<and>
               bar_low b \<le> bar_close b \<and> bar_close b \<le> bar_high b)"

text \<open>Fixtures: the loop's state after the samples 100 at 0:00 and 110 at 0:05, an option
  leg, and the broker as \<open>run\<close> creates it.\<close>

definition two_ticks_state :: run_state where
  "two_ticks_state =
     \<lparr>bars = [\<lparr>bar_datetime = 0, bar_open = 100, bar_high = 110, bar_low = 100,
                 bar_close = 110\<rparr>],
       last_completed = Some (- 900000000),
       adx_tracker = \<lparr>period = 14, ready = True,
          prev = Some \<lparr>prev_close = 100, prev_high = 100, prev_low = 100,
                       tr_s = 13 / 14000000000, plus_dm_s = 0, minus_dm_s = 0,
                       adx = 0\<rparr>\<rparr>\<rparr>"

definition atm_call :: contract where
  "atm_call = \<lparr>expiry = ''26-Nov-2026'', strike = 25000, opt_type = ''CE'', ltp = Some 100,
                oi = None, change_in_oi = None, bid = Some 99, ask = Some 100,
                symbol = Some ''NIFTY''\<rparr>"

definition fresh_broker :: PaperBroker where
  "fresh_broker = PaperBroker_init 100000 ''trade_log.jsonl'' (1 / 1000)"


section \<open>The trend indicator\<close>

lemma update_unseeded: "\<not> ready t \<Longrightarrow> update t h l c = update (seed t c) h l c"
  by (simp add: update_def seed_def)

lemma update_ready:
  assumes "ready t" "prev t = Some pv" "period t \<noteq> 0"
  shows "update t h l c = Inr (t\<lparr>prev := Some (next_prev (period t) pv h l c)\<rparr>,
                         adx (next_prev (period t) pv h l c))"
  unfolding update_def next_prev_def wilder_def di_def dx_of_def true_range_def Let_def
    case_prod_beta
  using assms by (simp only: not_True_eq_False if_False if_True option.case prev_state.simps)

lemma dx_of_left: "0 < a \<Longrightarrow> dx_of a 0 = 100"
  by (simp add: dx_of_def)

lemma dx_of_right: "0 < a \<Longrightarrow> dx_of 0 a = 100"
  by (simp add: dx_of_def)

lemma dx_of_zero: "dx_of 0 0 = 0"
  by (simp add: dx_of_def)

lemma di_pos: "0 < x \<Longrightarrow> 0 < d \<Longrightarrow> 0 < di x d"
  by (simp add: di_def)

lemma di_zero: "di 0 d = 0"
  by (simp add: di_def)

lemma wilder_zero: "wilder n 0 x = x"
  by (simp add: wilder_def)

lemma wilder_nonneg: "1 \<le> n \<Longrightarrow> 0 \<le> s \<Longrightarrow> 0 \<le> x \<Longrightarrow> 0 \<le> wilder n s x"
proof -
  assume a: "1 \<le> n" "0 \<le> s" "0 \<le> x"
  then have "1 * s \<le> n * s" by (intro mult_right_mono) simp_all
  then have "s / n \<le> s" using a by (simp add: field_simps)
  then show ?thesis using a by (simp add: wilder_def)
qed

lemma wilder_pos_raw: "1 \<le> n \<Longrightarrow> 0 \<le> s \<Longrightarrow> 0 < x \<Longrightarrow> 0 < wilder n s x"
proof -
  assume a: "1 \<le> n" "0 \<le> s" "0 < x"
  then have "1 * s \<le> n * s" by (intro mult_right_mono) simp_all
  then have "s / n \<le> s" using a by (simp add: field_simps)
  then show ?thesis using a by (simp add: wilder_def)
qed

lemma wilder_pos: "2 \<le> n \<Longrightarrow> 0 < s \<Longrightarrow> 0 \<le> x \<Longrightarrow> 0 < wilder n s x"
proof -
  assume a: "2 \<le> n" "0 < s" "0 \<le> x"
  then have "s / n < s" by (simp add: field_simps)
  then show ?thesis using a by (simp add: wilder_def)
qed

lemma first_adx:
  assumes "1 \<le> k"
  shows "adx (next_prev k (seeded c) h l c) = (if h \<le> c \<and> c \<le> l then 0 else 100)"
proof -
  define n where "n = real_of_int k"
  have n1: "1 \<le> n" using assms by (simp add: n_def)
  define tr where "tr = true_range (seeded c) h l"
  define trs where "trs = wilder n (1 / 10 ^ 9) tr"
  have tr_ge: "\<bar>h - c\<bar> \<le> tr" "\<bar>l - c\<bar> \<le> tr"
    by (simp_all add: tr_def true_range_def seeded_def)
  have eq: "adx (next_prev k (seeded c) h l c) =
      dx_of (di (fst (directional_moves (seeded c) h l)) trs)
            (di (snd (directional_moves (seeded c) h l)) trs)"
    by (simp add: next_prev_def Let_def seeded_def wilder_zero trs_def tr_def n_def)
  show ?thesis
  proof (cases "h \<le> c \<and> c \<le> l")
    case True
    then have "directional_moves (seeded c) h l = (0, 0)"
      by (simp add: directional_moves_def seeded_def Let_def)
    then show ?thesis using True eq by (simp add: di_zero dx_of_zero)
  next
    case False
    show ?thesis
    proof (cases "max (h - c) 0 < max (c - l) 0")
      case True
      then have pos: "0 < c - l" by (simp add: max_def split: if_splits)
      have dm: "directional_moves (seeded c) h l = (0, c - l)"
        using True pos by (simp add: directional_moves_def seeded_def Let_def)
      have "0 < tr" using pos tr_ge(2) by linarith
      then have "0 < trs" unfolding trs_def using n1 by (intro wilder_pos_raw) simp_all
      then have "0 < di (c - l) trs" using pos by (rule di_pos[rotated])
      then show ?thesis using False eq dm by (simp add: di_zero dx_of_right)
    next
      case F2: False
      with False have pos: "0 < h - c" by (auto simp: max_def split: if_splits)
      have dm: "directional_moves (seeded c) h l = (h - c, 0)"
        using F2 pos by (simp add: directional_moves_def seeded_def Let_def)
      have "0 < tr" using pos tr_ge(1) by linarith
      then have "0 < trs" unfolding trs_def using n1 by (intro wilder_pos_raw) simp_all
      then have "0 < di (h - c) trs" using pos by (rule di_pos[rotated])
      then show ?thesis using False eq dm by (simp add: di_zero dx_of_left)
    qed
  qed
qed

lemma true_range_nonneg: "0 \<le> true_range pv h l"
  by (simp add: true_range_def le_max_iff_disj)

lemma directional_moves_nonneg:
  "0 \<le> fst (directional_moves pv h l)" "0 \<le> snd (directional_moves pv h l)"
  by (simp_all add: directional_moves_def Let_def)

lemma di_nonneg: "0 \<le> x \<Longrightarrow> 0 < d \<Longrightarrow> 0 \<le> di x d"
  by (simp add: di_def)

lemma dx_of_bounds:
  assumes "0 \<le> a" "0 \<le> b"
  shows "0 \<le> dx_of a b" "dx_of a b \<le> 100"
proof -
  show "0 \<le> dx_of a b" using assms by (simp add: dx_of_def)
  show "dx_of a b \<le> 100"
  proof (cases "a + b = 0")
    case True
    then show ?thesis by (simp add: dx_of_def)
  next
    case False
    then have pos: "0 < a + b" using assms by linarith
    have "\<bar>a - b\<bar> \<le> a + b" using assms by linarith
    then have "\<bar>a - b\<bar> / (a + b) \<le> 1" using pos by (simp add: divide_le_eq)
    then show ?thesis using False by (simp add: dx_of_def)
  qed
qed

lemma smooth_bounds:
  fixes n a d :: real
  assumes "2 \<le> n" "0 \<le> a" "a \<le> 100" "0 \<le> d" "d \<le> 100"
  shows "0 \<le> (a * (n - 1) + d) / n" "(a * (n - 1) + d) / n \<le> 100"
proof -
  have n0: "0 < n" "0 \<le> n - 1" using assms(1) by simp_all
  have "0 \<le> a * (n - 1)" using assms(2) n0(2) by (rule mult_nonneg_nonneg)
  then show "0 \<le> (a * (n - 1) + d) / n" using assms(4) n0(1) by simp
  have "a * (n - 1) \<le> 100 * (n - 1)" using assms(3) n0(2) by (rule mult_right_mono)
  then have "a * (n - 1) + d \<le> 100 * n" using assms(5) by (simp add: algebra_simps)
  then show "(a * (n - 1) + d) / n \<le> 100" using n0(1) by (simp add: divide_le_eq)
qed

lemma next_prev_fields:
  "tr_s (next_prev k pv h l c) = wilder (real_of_int k) (tr_s pv) (true_range pv h l)"
  "plus_dm_s (next_prev k pv h l c) =
     wilder (real_of_int k) (plus_dm_s pv) (fst (directional_moves pv h l))"
  "minus_dm_s (next_prev k pv h l c) =
     wilder (real_of_int k) (minus_dm_s pv) (snd (directional_moves pv h l))"
  "prev_close (next_prev k pv h l c) = c"
  "prev_high (next_prev k pv h l c) = h"
  "prev_low (next_prev k pv h l c) = l"
  by (simp_all add: next_prev_def Let_def)

lemma next_prev_adx:
  "adx (next_prev k pv h l c) =
     (if adx pv \<noteq> 0
      then (adx pv * (real_of_int k - 1) +
            dx_of (di (plus_dm_s (next_prev k pv h l c)) (tr_s (next_prev k pv h l c)))
                  (di (minus_dm_s (next_prev k pv h l c)) (tr_s (next_prev k pv h l c)))) /
           real_of_int k
      else dx_of (di (plus_dm_s (next_prev k pv h l c)) (tr_s (next_prev k pv h l c)))
                 (di (minus_dm_s (next_prev k pv h l c)) (tr_s (next_prev k pv h l c))))"
  by (simp add: next_prev_def Let_def)

lemma next_prev_inv:
  assumes k: "2 \<le> k"
    and pv: "0 < tr_s pv" "0 \<le> plus_dm_s pv" "0 \<le> minus_dm_s pv" "0 \<le> adx pv" "adx pv \<le> 100"
  shows "0 < tr_s (next_prev k pv h l c)"
    and "0 \<le> plus_dm_s (next_prev k pv h l c)"
    and "0 \<le> minus_dm_s (next_prev k pv h l c)"
    and "0 \<le> adx (next_prev k pv h l c)"
    and "adx (next_prev k pv h l c) \<le> 100"
proof -
  have n2: "2 \<le> real_of_int k" and n1: "1 \<le> real_of_int k" using k by simp_all
  show t: "0 < tr_s (next_prev k pv h l c)"
    unfolding next_prev_fields using n2 pv(1) true_range_nonneg by (rule wilder_pos)
  show p: "0 \<le> plus_dm_s (next_prev k pv h l c)"
    unfolding next_prev_fields using n1 pv(2) directional_moves_nonneg(1) by (rule wilder_nonneg)
  show m: "0 \<le> minus_dm_s (next_prev k pv h l c)"
    unfolding next_prev_fields using n1 pv(3) directional_moves_nonneg(2) by (rule wilder_nonneg)
  define d where "d = dx_of (di (plus_dm_s (next_prev k pv h l c)) (tr_s (next_prev k pv h l c)))
                  (di (minus_dm_s (next_prev k pv h l c)) (tr_s (next_prev k pv h l c)))"
  have d: "0 \<le> d" "d \<le> 100"
    unfolding d_def using di_nonneg[OF p t] di_nonneg[OF m t] by (rule dx_of_bounds)+
  have a: "adx (next_prev k pv h l c) =
      (if adx pv \<noteq> 0 then (adx pv * (real_of_int k - 1) + d) / real_of_int k else d)"
    unfolding d_def by (rule next_prev_adx)
  show "0 \<le> adx (next_prev k pv h l c)"
    using smooth_bounds(1)[OF n2 pv(4) pv(5) d] d(1) by (simp add: a)
  show "adx (next_prev k pv h l c) \<le> 100"
    using smooth_bounds(2)[OF n2 pv(4) pv(5) d] d(2) by (simp add: a)
qed

lemma seed_inv: "2 \<le> period t \<Longrightarrow> adx_inv (seed t c)"
  by (simp add: adx_inv_def seed_def)

lemma update_inv:
  assumes "adx_inv t"
  shows "\<exists>t' a. update t h l c = Inr (t', a) \<and> adx_inv t' \<and> period t' = period t \<and>
           0 \<le> a \<and> a \<le> 100"
proof -
  from assms obtain pv where pv: "prev t = Some pv" and r: "ready t" and k: "2 \<le> period t"
    and f: "0 < tr_s pv" "0 \<le> plus_dm_s pv" "0 \<le> minus_dm_s pv" "0 \<le> adx pv" "adx pv \<le> 100"
    by (auto simp: adx_inv_def split: option.splits)
  have k0: "period t \<noteq> 0" using k by simp
  note np = next_prev_inv[OF k f, of h l c]
  have "adx_inv (t\<lparr>prev := Some (next_prev (period t) pv h l c)\<rparr>)"
    using r k np by (simp add: adx_inv_def)
  then show ?thesis using update_ready[OF r pv k0, of h l c] np by simp
qed

lemma updates_inv:
  "adx_inv t \<Longrightarrow>
   \<exists>rs. updates t bs = Inr rs \<and> length rs = length bs \<and>
        list_all (\<lambda>(t', a). 0 \<le> a \<and> a \<le> 100 \<and> adx_inv t') rs"
proof (induction bs arbitrary: t)
  case Nil
  then show ?case by simp
next
  case (Cons b bs)
  obtain h l c where b: "b = (h, l, c)" by (cases b)
  from update_inv[OF Cons.prems, of h l c] obtain t' a where
    u: "update t h l c = Inr (t', a)" and i: "adx_inv t'" and a: "0 \<le> a" "a \<le> 100"
    by blast
  from Cons.IH[OF i] obtain rs where
    rs: "updates t' bs = Inr rs" "length rs = length bs"
      "list_all (\<lambda>(t', a). 0 \<le> a \<and> a \<le> 100 \<and> adx_inv t') rs"
    by blast
  show ?case using b u i a rs by simp
qed

lemma adx_inv_tr_s: "adx_inv t \<Longrightarrow> \<exists>pv. prev t = Some pv \<and> 0 < tr_s pv"
  by (auto simp: adx_inv_def split: option.splits)

text \<open>
  Claim C6. For a period of at least 2 (the runner uses 14) and every sequence of calls
  \<open>update\<close> on a fresh tracker, the first of which seeds it: no call raises (the division
  by the period is the only unguarded one), after every call the smoothed true range
  \<open>tr_s\<close> is strictly positive, so that the guarded divisions by it are divisions by a
  non-zero number, and every returned value lies in \<open>[0, 100]\<close>.
\<close>

theorem trend_strength_bounded:
  assumes "2 \<le> n"
  shows "\<exists>rs. updates (ADXTracker_init n) bs = Inr rs \<and> length rs = length bs \<and>
           list_all (\<lambda>(t, a). 0 \<le> a \<and> a \<le> 100 \<and> (\<exists>pv. prev t = Some pv \<and> 0 < tr_s pv)) rs"
proof (cases bs)
  case Nil
  then show ?thesis by simp
next
  case (Cons b bs')
  obtain h l c where b: "b = (h, l, c)" by (cases b)
  let ?t0 = "ADXTracker_init n"
  have nr: "\<not> ready ?t0" and p: "period ?t0 = n" by (simp_all add: ADXTracker_init_def)
  have s: "adx_inv (seed ?t0 c)" using assms p by (simp add: seed_inv)
  have e: "updates ?t0 bs = updates (seed ?t0 c) bs"
    using Cons b update_unseeded[OF nr, of h l c] by simp
  from updates_inv[OF s, of bs] obtain rs where
    rs: "updates (seed ?t0 c) bs = Inr rs" "length rs = length bs"
      "list_all (\<lambda>(t', a). 0 \<le> a \<and> a \<le> 100 \<and> adx_inv t') rs"
    by blast
  have "list_all (\<lambda>(t, a). 0 \<le> a \<and> a \<le> 100 \<and> (\<exists>pv. prev t = Some pv \<and> 0 < tr_s pv)) rs"
    using rs(3) adx_inv_tr_s by (auto simp: list_all_iff)
  then show ?thesis using e rs(1,2) by simp
qed

text \<open>The period 14 and two bars satisfy the hypothesis of C6.\<close>

theorem trend_strength_bounded_witness:
  "(2::int) \<le> 14 \<and>
   (\<exists>rs. updates (ADXTracker_init 14) [(110, 100, 105), (120, 90, 100)] = Inr rs \<and>
      length rs = 2 \<and>
      list_all (\<lambda>(t, a). 0 \<le> a \<and> a \<le> 100 \<and> (\<exists>pv. prev t = Some pv \<and> 0 < tr_s pv)) rs)"
proof -
  have k: "(2::int) \<le> 14" by simp
  have n: "length [(110, 100, 105), (120, 90, 100) :: real \<times> real \<times> real] = 2" by simp
  show ?thesis
    using trend_strength_bounded [OF k, of "[(110, 100, 105), (120, 90, 100)]"] k
    unfolding n by blast
qed

text \<open>
  Claim C1 as stated fails: on the first call with high 110, low 100, close 105 the
  tracker seeds itself and goes on to compute; it returns 100, not 0, and the stored
  state is not the seed's.
\<close>

theorem first_update_not_zero:
  "update (ADXTracker_init 14) 110 100 105 =
     Inr (\<lparr>period = 14, ready = True,
           prev = Some \<lparr>prev_close = 105, prev_high = 110, prev_low = 100,
                        tr_s = 140000000013 / 14000000000, plus_dm_s = 5, minus_dm_s = 0,
                        adx = 100\<rparr>\<rparr>, 100)"
  by (simp add: update_def ADXTracker_init_def seed_def directional_moves_def Let_def)

text \<open>
  Claim C1, amended. The first call to \<open>update\<close> on an unseeded tracker (period at
  least 1) performs the seed (\<open>prev_close = prev_high = prev_low = close\<close>,
  \<open>tr_s = 1e-9\<close>, both smoothed directional moves 0, \<open>adx = 0\<close>) and then runs the
  ordinary computation on the seeded state: it returns 0 when \<open>high \<le> close \<le> low\<close>
  (in particular when the three are equal) and 100 otherwise, and stores the bar's high,
  low and close.
\<close>

theorem first_update_seeds_then_computes:
  assumes "\<not> ready t" "1 \<le> period t"
  shows "update t h l c = update (seed t c) h l c \<and>
         ready (seed t c) \<and>
         prev (seed t c) = Some \<lparr>prev_close = c, prev_high = c, prev_low = c,
                                  tr_s = 1 / 10 ^ 9, plus_dm_s = 0, minus_dm_s = 0, adx = 0\<rparr> \<and>
         (\<exists>t'. update t h l c = Inr (t', if h \<le> c \<and> c \<le> l then 0 else 100) \<and> ready t' \<and>
               (\<exists>pv. prev t' = Some pv \<and> prev_close pv = c \<and> prev_high pv = h \<and>
                     prev_low pv = l))"
proof -
  have u: "update t h l c = update (seed t c) h l c" using assms(1) by (rule update_unseeded)
  have r: "ready (seed t c)" and p: "prev (seed t c) = Some (seeded c)"
    and k: "period (seed t c) = period t"
    by (simp_all add: seed_def seeded_def)
  have k0: "period (seed t c) \<noteq> 0" using assms(2) k by simp
  have v: "adx (next_prev (period (seed t c)) (seeded c) h l c) =
      (if h \<le> c \<and> c \<le> l then 0 else 100)"
    using assms(2) k by (simp add: first_adx)
  have "\<exists>t'. update t h l c = Inr (t', if h \<le> c \<and> c \<le> l then 0 else 100) \<and> ready t' \<and>
               (\<exists>pv. prev t' = Some pv \<and> prev_close pv = c \<and> prev_high pv = h \<and>
                     prev_low pv = l)"
    unfolding u update_ready[OF r p k0] v using r by (simp add: next_prev_fields)
  then show ?thesis using u r p by (simp add: seeded_def)
qed

text \<open>A fresh tracker of period 14 satisfies the hypotheses of the amended C1.\<close>

theorem first_update_seeds_then_computes_witness:
  "\<not> ready (ADXTracker_init 14) \<and> 1 \<le> period (ADXTracker_init 14) \<and>
   (\<exists>t'. update (ADXTracker_init 14) 100 100 100 = Inr (t', 0)) \<and>
   (\<exists>t'. update (ADXTracker_init 14) 110 100 105 = Inr (t', 100))"
proof -
  have a: "\<not> ready (ADXTracker_init 14)" and b: "1 \<le> period (ADXTracker_init 14)"
    by (simp_all add: ADXTracker_init_def)
  have x: "(if (100::real) \<le> 100 \<and> (100::real) \<le> 100 then 0 else 100) = (0::real)"
    and y: "(if (110::real) \<le> 105 \<and> (105::real) \<le> 100 then 0 else 100) = (100::real)"
    by simp_all
  show ?thesis
    using first_update_seeds_then_computes [OF a b, of 100 100 100]
      first_update_seeds_then_computes [OF a b, of 110 100 105] a b
    unfolding x y by blast
qed

text \<open>
  Claim C8 as stated fails: with previous high and low 100 and a bar of high 105 and low
  95 the two raw moves are both 5, and the plus move is kept while the minus move is
  zeroed.
\<close>

theorem tie_keeps_plus_dm:
  "max (105 - prev_high \<lparr>prev_close = 100, prev_high = 100, prev_low = 100, tr_s = 1,
          plus_dm_s = 0, minus_dm_s = 0, adx = 0\<rparr>) 0 =
   max (prev_low \<lparr>prev_close = 100, prev_high = 100, prev_low = 100, tr_s = 1,
          plus_dm_s = 0, minus_dm_s = 0, adx = 0\<rparr> - 95) (0::real) \<and>
   directional_moves \<lparr>prev_close = 100, prev_high = 100, prev_low = 100, tr_s = 1,
          plus_dm_s = 0, minus_dm_s = 0, adx = 0\<rparr> 105 95 = (5, 0)"
  by (simp add: directional_moves_def Let_def)

text \<open>
  Claim C8, amended. In the directional-movement step, on a tie the raw minus move is
  zeroed and the raw plus move is kept; otherwise only the strictly larger of the two
  moves survives and the other is 0.
\<close>

theorem directional_moves_tie_break:
  "(max (h - prev_high pv) 0 = max (prev_low pv - l) 0 \<longrightarrow>
      directional_moves pv h l = (max (h - prev_high pv) 0, 0)) \<and>
   (max (h - prev_high pv) 0 > max (prev_low pv - l) 0 \<longrightarrow>
      directional_moves pv h l = (max (h - prev_high pv) 0, 0)) \<and>
   (max (h - prev_high pv) 0 < max (prev_low pv - l) 0 \<longrightarrow>
      directional_moves pv h l = (0, max (prev_low pv - l) 0))"
proof -
  define rp where "rp = max (h - prev_high pv) 0"
  define rm where "rm = max (prev_low pv - l) 0"
  have e: "directional_moves pv h l = (if rp < rm then (0, rm) else (rp, 0))"
    by (simp add: directional_moves_def Let_def rp_def rm_def)
  have "(rp = rm \<longrightarrow> directional_moves pv h l = (rp, 0)) \<and>
        (rp > rm \<longrightarrow> directional_moves pv h l = (rp, 0)) \<and>
        (rp < rm \<longrightarrow> directional_moves pv h l = (0, rm))"
    unfolding e by auto
  then show ?thesis unfolding rp_def rm_def .
qed

text \<open>One bar for each of the three cases of the amended C8.\<close>

theorem directional_moves_tie_break_witness:
  "directional_moves (seeded 100) 105 95 = (5, 0) \<and>
   directional_moves (seeded 100) 105 100 = (5, 0) \<and>
   directional_moves (seeded 100) 100 95 = (0, 5)"
proof -
  have a: "max (105 - prev_high (seeded 100)) 0 = max (prev_low (seeded 100) - 95) 0"
    and b: "max (105 - prev_high (seeded 100)) 0 > max (prev_low (seeded 100) - 100) 0"
    and c: "max (100 - prev_high (seeded 100)) 0 < max (prev_low (seeded 100) - 95) 0"
    and d: "max (105 - prev_high (seeded 100)) 0 = 5" "max (prev_low (seeded 100) - 95) 0 = 5"
    by (simp_all add: seeded_def)
  show ?thesis
    using directional_moves_tie_break [of 105 "seeded 100" 95]
      directional_moves_tie_break [of 105 "seeded 100" 100]
      directional_moves_tie_break [of 100 "seeded 100" 95] a b c d
    by simp
qed

section \<open>The four-bar signal\<close>

lemma length_4_cases:
  assumes "length xs = 4"
  obtains a b c d where "xs = [a, b, c, d]"
proof -
  from assms obtain a xs1 where 1: "xs = a # xs1" "length xs1 = 3" by (cases xs) auto
  then obtain b xs2 where 2: "xs1 = b # xs2" "length xs2 = 2" by (cases xs1) auto
  then obtain c xs3 where 3: "xs2 = c # xs3" "length xs3 = 1" by (cases xs2) auto
  then obtain d where 4: "xs3 = [d]" by (cases xs3) auto
  show ?thesis using that 1 2 3 4 by simp
qed

lemma upt_1_4: "[1..<4] = [1, 2, 3]"
  by (simp add: upt_rec)

lemma inc4: "list_all (\<lambda>i. [a, b, c, d] ! i > [a, b, c, d] ! (i - 1)) [1..<4] =
    sorted_wrt (<) [a, b, c, d :: real]"
  unfolding upt_1_4 by (simp add: numeral_2_eq_2 numeral_3_eq_3) linarith

lemma dec4: "list_all (\<lambda>i. [a, b, c, d] ! i < [a, b, c, d] ! (i - 1)) [1..<4] =
    sorted_wrt (>) [a, b, c, d :: real]"
  unfolding upt_1_4 by (simp add: numeral_2_eq_2 numeral_3_eq_3) linarith

lemma max_list_Max: "xs \<noteq> [] \<Longrightarrow> max_list xs = Max (set xs)"
proof -
  assume ne: "xs \<noteq> []"
  have f: "(\<lambda>x s. max s x) = (max :: real \<Rightarrow> real \<Rightarrow> real)"
    by (intro ext) (rule max.commute)
  have "max_list xs = fold max (tl xs) (hd xs)"
    by (simp add: max_list_def foldl_conv_fold f)
  also have "\<dots> = Max (set (hd xs # tl xs))" by (rule Max.set_eq_fold[symmetric])
  finally show ?thesis using ne by simp
qed

lemma min_list_Min: "xs \<noteq> [] \<Longrightarrow> min_list xs = Min (set xs)"
proof -
  assume ne: "xs \<noteq> []"
  have f: "(\<lambda>x s. min s x) = (min :: real \<Rightarrow> real \<Rightarrow> real)"
    by (intro ext) (rule min.commute)
  have "min_list xs = fold min (tl xs) (hd xs)"
    by (simp add: min_list_def foldl_conv_fold f)
  also have "\<dots> = Min (set (hd xs # tl xs))" by (rule Min.set_eq_fold[symmetric])
  finally show ?thesis using ne by simp
qed

lemma length_last4: "4 \<le> length df \<Longrightarrow> length (last4 df) = 4"
  by (simp add: last4_def)

lemma four_bar_signal_eq:
  assumes "4 \<le> length df"
  shows "four_bar_signal df =
     (if sorted_wrt (<) (map bar_close (last4 df))
      then Some \<lparr>dir = ''LONG'', trigger = Max (set (map bar_high (last4 df))),
                  box_high = Max (set (map bar_high (last4 df))),
                  box_low = Min (set (map bar_low (last4 df)))\<rparr>
      else if sorted_wrt (>) (map bar_close (last4 df))
      then Some \<lparr>dir = ''SHORT'', trigger = Min (set (map bar_low (last4 df))),
                  box_high = Max (set (map bar_high (last4 df))),
                  box_low = Min (set (map bar_low (last4 df)))\<rparr>
      else None)"
proof -
  obtain w x y z where l4: "last4 df = [w, x, y, z]"
    using length_last4[OF assms] by (rule length_4_cases)
  have ne: "map bar_high (last4 df) \<noteq> []" "map bar_low (last4 df) \<noteq> []" using l4 by simp_all
  have c: "map bar_close (last4 df) = [bar_close w, bar_close x, bar_close y, bar_close z]"
    using l4 by simp
  have "four_bar_signal df =
     (if list_all (\<lambda>i. map bar_close (last4 df) ! i > map bar_close (last4 df) ! (i - 1)) [1..<4]
      then Some \<lparr>dir = ''LONG'', trigger = max_list (map bar_high (last4 df)),
                  box_high = max_list (map bar_high (last4 df)),
                  box_low = min_list (map bar_low (last4 df))\<rparr>
      else if list_all (\<lambda>i. map bar_close (last4 df) ! i < map bar_close (last4 df) ! (i - 1)) [1..<4]
      then Some \<lparr>dir = ''SHORT'', trigger = min_list (map bar_low (last4 df)),
                  box_high = max_list (map bar_high (last4 df)),
                  box_low = min_list (map bar_low (last4 df))\<rparr>
      else None)"
    using assms unfolding four_bar_signal_def last4_def Let_def by (simp only: not_less[symmetric] if_False)
  then show ?thesis
    unfolding max_list_Max[OF ne(1)] min_list_Min[OF ne(2)] unfolding c inc4 dec4 .
qed

lemma four_bar_signal_short: "length df < 4 \<Longrightarrow> four_bar_signal df = None"
  by (simp add: four_bar_signal_def)

lemma not_inc_and_dec4: "\<not> (sorted_wrt (<) [a, b, c, d :: real] \<and> sorted_wrt (>) [a, b, c, d])"
  by auto

lemma tie4:
  assumes "i < 3" "[a, b, c, d :: real] ! Suc i = [a, b, c, d] ! i"
  shows "\<not> sorted_wrt (<) [a, b, c, d]" "\<not> sorted_wrt (>) [a, b, c, d]"
proof -
  from assms(1) consider "i = 0" | "i = 1" | "i = 2" by linarith
  then have "a = b \<or> b = c \<or> c = d" using assms(2) by cases simp_all
  then show "\<not> sorted_wrt (<) [a, b, c, d]" "\<not> sorted_wrt (>) [a, b, c, d]" by auto
qed

text \<open>
  Claim C5. With \<open>last4 df\<close> the last four bars: \<open>four_bar_signal\<close> returns the LONG
  signal, whose trigger is the greatest high of the last four bars, exactly when there are
  at least four bars and the last four closes are strictly increasing; the SHORT signal,
  whose trigger is the least low of the last four bars, exactly when they are strictly
  decreasing; and nothing exactly in the remaining cases, among them two equal consecutive
  closes and fewer than four bars.
\<close>

theorem four_bar_signal_classifies:
  "(four_bar_signal df =
      Some \<lparr>dir = ''LONG'', trigger = Max (set (map bar_high (last4 df))),
            box_high = Max (set (map bar_high (last4 df))),
            box_low = Min (set (map bar_low (last4 df)))\<rparr>) =
     (4 \<le> length df \<and> sorted_wrt (<) (map bar_close (last4 df))) \<and>
   (four_bar_signal df =
      Some \<lparr>dir = ''SHORT'', trigger = Min (set (map bar_low (last4 df))),
            box_high = Max (set (map bar_high (last4 df))),
            box_low = Min (set (map bar_low (last4 df)))\<rparr>) =
     (4 \<le> length df \<and> sorted_wrt (>) (map bar_close (last4 df))) \<and>
   (four_bar_signal df = None) =
     (length df < 4 \<or>
      (\<not> sorted_wrt (<) (map bar_close (last4 df)) \<and>
       \<not> sorted_wrt (>) (map bar_close (last4 df)))) \<and>
   (4 \<le> length df \<and>
    (\<exists>i<3. map bar_close (last4 df) ! Suc i = map bar_close (last4 df) ! i) \<longrightarrow>
      four_bar_signal df = None) \<and>
   (length df < 4 \<longrightarrow> four_bar_signal df = None)"
proof (cases "4 \<le> length df")
  case False
  then have "four_bar_signal df = None" by (simp add: four_bar_signal_short)
  then show ?thesis using False by simp
next
  case True
  obtain w x y z where l4: "last4 df = [w, x, y, z]"
    using length_last4[OF True] by (rule length_4_cases)
  define cs where "cs = map bar_close (last4 df)"
  have c: "cs = [bar_close w, bar_close x, bar_close y, bar_close z]"
    using l4 by (simp add: cs_def)
  have ex: "\<not> (sorted_wrt (<) cs \<and> sorted_wrt (>) cs)"
    unfolding c by (rule not_inc_and_dec4)
  have tie: "\<not> sorted_wrt (<) cs \<and> \<not> sorted_wrt (>) cs" if "\<exists>i<3. cs ! Suc i = cs ! i"
    using that tie4 unfolding c by blast
  note e = four_bar_signal_eq[OF True, folded cs_def]
  show ?thesis
    unfolding cs_def[symmetric] using True ex tie by (auto simp: e)
qed

text \<open>
  Four fixtures for C5: rising closes (five bars, the last four count), falling closes,
  a tie, and three bars only.
\<close>

theorem four_bar_signal_classifies_witness:
  "four_bar_signal [flat_bar 0 1, flat_bar 1 2, flat_bar 2 3, flat_bar 3 4, flat_bar 4 5] =
     Some \<lparr>dir = ''LONG'', trigger = 5, box_high = 5, box_low = 2\<rparr> \<and>
   four_bar_signal [flat_bar 1 5, flat_bar 2 4, flat_bar 3 3, flat_bar 4 2] =
     Some \<lparr>dir = ''SHORT'', trigger = 2, box_high = 5, box_low = 2\<rparr> \<and>
   four_bar_signal [flat_bar 1 1, flat_bar 2 2, flat_bar 3 2, flat_bar 4 3] = None \<and>
   four_bar_signal [flat_bar 1 1, flat_bar 2 2, flat_bar 3 3] = None"
proof -
  let ?up = "[flat_bar 0 1, flat_bar 1 2, flat_bar 2 3, flat_bar 3 4, flat_bar 4 5]"
  let ?down = "[flat_bar 1 5, flat_bar 2 4, flat_bar 3 3, flat_bar 4 2]"
  let ?tie = "[flat_bar 1 1, flat_bar 2 2, flat_bar 3 2, flat_bar 4 3]"
  let ?few = "[flat_bar 1 1, flat_bar 2 2, flat_bar 3 3]"
  have up: "4 \<le> length ?up \<and> sorted_wrt (<) (map bar_close (last4 ?up))"
    "Max (set (map bar_high (last4 ?up))) = 5" "Min (set (map bar_low (last4 ?up))) = 2"
    by (simp_all add: last4_def flat_bar_def)
  have down: "4 \<le> length ?down \<and> sorted_wrt (>) (map bar_close (last4 ?down))"
    "Max (set (map bar_high (last4 ?down))) = 5" "Min (set (map bar_low (last4 ?down))) = 2"
    by (simp_all add: last4_def flat_bar_def)
  have "map bar_close (last4 ?tie) ! Suc 1 = map bar_close (last4 ?tie) ! 1"
    by (simp add: last4_def flat_bar_def)
  then have tie: "4 \<le> length ?tie \<and>
      (\<exists>i<3. map bar_close (last4 ?tie) ! Suc i = map bar_close (last4 ?tie) ! i)"
    by (intro conjI exI[of _ 1]) simp_all
  have few: "length ?few < 4" by simp
  show ?thesis
    using four_bar_signal_classifies [of ?up] four_bar_signal_classifies [of ?down]
      four_bar_signal_classifies [of ?tie] four_bar_signal_classifies [of ?few]
      up down tie few
    by (simp only:)
qed

section \<open>Aggregation and the tick\<close>

lemma aggregate_eq:
  "aggregate bs slot spot =
     (if bs = [] \<or> bar_datetime (last bs) < slot
      then bs @ [flat_bar slot spot]
      else butlast bs @
           [\<lparr>bar_datetime = bar_datetime (last bs), bar_open = bar_open (last bs),
             bar_high = max (bar_high (last bs)) spot,
             bar_low = min (bar_low (last bs)) spot, bar_close = spot\<rparr>])"
proof (cases "bs = []")
  case True
  then show ?thesis by (simp add: aggregate_def flat_bar_def)
next
  case False
  then have u: "bs[length bs - 1 := x] = butlast bs @ [x]" for x
    by (induction bs rule: rev_induct) simp_all
  show ?thesis using False unfolding aggregate_def u by (simp add: flat_bar_def)
qed

lemma aggregate_ok:
  assumes "list_all bar_ok bs"
  shows "list_all bar_ok (aggregate bs slot spot)"
proof (cases "bs = [] \<or> bar_datetime (last bs) < slot")
  case True
  then show ?thesis using assms by (simp add: aggregate_eq flat_bar_def bar_ok_def)
next
  case False
  then have ne: "bs \<noteq> []" by simp
  then have b: "bs = butlast bs @ [last bs]" by simp
  have "list_all bar_ok (butlast bs)" "bar_ok (last bs)"
    using assms ne by (simp_all add: list_all_iff in_set_butlastD)
  then show ?thesis using False
    by (simp add: aggregate_eq bar_ok_def min_le_iff_disj le_max_iff_disj)
qed

lemma aggregate_length:
  "length (aggregate bs slot spot) \<le> length bs + 1"
  "length bs \<le> length (aggregate bs slot spot)"
  by (simp_all add: aggregate_def)

lemma aggregate_all_ok:
  "list_all bar_ok bs \<Longrightarrow> list_all bar_ok (aggregate_all bs qs)"
  by (induction bs qs rule: aggregate_all.induct) (simp_all add: aggregate_ok)

text \<open>
  Claim C9. For every sequence \<open>qs\<close> of observed samples, fed to the aggregation step from
  the empty frame: every bar of the frame satisfies \<open>low \<le> open \<le> high\<close> and
  \<open>low \<le> close \<le> high\<close>, also after one more step; a step appends at most one bar and
  removes none; and a step either opens a new bar with \<open>open = high = low = close = price\<close>
  or replaces the last bar's high by \<open>max high price\<close>, its low by \<open>min low price\<close> and
  its close by the price.
\<close>

theorem aggregate_bars_ordered:
  "list_all bar_ok (aggregate_all [] qs) \<and>
   list_all bar_ok (aggregate (aggregate_all [] qs) slot spot) \<and>
   length (aggregate (aggregate_all [] qs) slot spot) \<le> length (aggregate_all [] qs) + 1 \<and>
   length (aggregate_all [] qs) \<le> length (aggregate (aggregate_all [] qs) slot spot) \<and>
   aggregate bs slot spot =
     (if bs = [] \<or> bar_datetime (last bs) < slot
      then bs @ [\<lparr>bar_datetime = slot, bar_open = spot, bar_high = spot, bar_low = spot,
                  bar_close = spot\<rparr>]
      else butlast bs @
           [\<lparr>bar_datetime = bar_datetime (last bs), bar_open = bar_open (last bs),
             bar_high = max (bar_high (last bs)) spot,
             bar_low = min (bar_low (last bs)) spot, bar_close = spot\<rparr>])"
proof -
  have a: "list_all bar_ok (aggregate_all [] qs)" by (rule aggregate_all_ok) simp
  show ?thesis
    using a aggregate_ok[OF a, of slot spot] aggregate_length[of "aggregate_all [] qs" slot spot]
      aggregate_eq[of bs slot spot]
    by (simp add: flat_bar_def)
qed

lemma floor_15m_900: "floor_15m 900000000 = 900000000"
  by (simp add: floor_15m_def minute_of_def)

lemma run_reaches_two_ticks_state:
  "\<exists>s1 e1. tick run_init 0 100 = Inr (s1, e1) \<and>
     tick s1 300000000 110 = Inr (two_ticks_state, None)"
  by (simp add: tick_def evaluate_def aggregate_def floor_15m_def minute_of_def update_def
      seed_def run_init_def ADXTracker_init_def ADX_PERIOD_def two_ticks_state_def
      directional_moves_def four_bar_signal_def Let_def)

text \<open>
  Claim C7 as stated fails. After the samples 100 at 0:00 and 110 at 0:05 the completed
  bar has high 110, low 100, close 110 (\<open>run_reaches_two_ticks_state\<close>). The sample 105
  at 0:15 opens the next bar, and the indicator is given high 105, low 100, close 105:
  the new bar's values against the previous close, not the completed bar's.
\<close>

theorem tick_feeds_new_bar_not_completed_bar:
  "tick two_ticks_state 900000000 105 =
     Inr (\<lparr>bars = [\<lparr>bar_datetime = 0, bar_open = 100, bar_high = 110, bar_low = 100,
                     bar_close = 110\<rparr>,
                   \<lparr>bar_datetime = 900000000, bar_open = 105, bar_high = 105,
                     bar_low = 105, bar_close = 105\<rparr>],
           last_completed = Some 0,
           adx_tracker = \<lparr>period = 14, ready = True,
              prev = Some \<lparr>prev_close = 105, prev_high = 105, prev_low = 100,
                           tr_s = 980000000169 / 196000000000, plus_dm_s = 5,
                           minus_dm_s = 0, adx = 100\<rparr>\<rparr>\<rparr>,
          Some \<lparr>day_high = 105, day_low = 100, day_close = 105, adx_val = 100,
                sig_val = None\<rparr>) \<and>
   bars two_ticks_state = [\<lparr>bar_datetime = 0, bar_open = 100, bar_high = 110, bar_low = 100,
                            bar_close = 110\<rparr>] \<and>
   (105, 100, 105) \<noteq> (bar_high (last (bars two_ticks_state)),
                          bar_low (last (bars two_ticks_state)),
                          bar_close (last (bars two_ticks_state)))"
  by (simp add: tick_def evaluate_def aggregate_def floor_15m_900 update_def
      two_ticks_state_def directional_moves_def four_bar_signal_def Let_def)

text \<open>
  Claim C7, amended. On a tick that opens a new bucket and completes a slot, with the
  indicator seeded, the loop gives the indicator \<open>high = max(prev_close, spot)\<close>,
  \<open>low = min(prev_close, spot)\<close> and \<open>close = spot\<close>, the values of the bar just opened
  against the indicator's previous close, and computes the four-bar signal over the bars
  that start at or before the completed slot, which are the bars before the new one.
\<close>

theorem tick_feeds_new_bucket:
  assumes "spot \<noteq> 0" "bars st \<noteq> []" "bar_datetime (last (bars st)) < floor_15m nowi"
    and "last_completed st = Some lc" "lc < floor_15m nowi - 900000000"
    and "ready (adx_tracker st)" "prev (adx_tracker st) = Some pv"
  shows "tick st nowi spot =
     (case update (adx_tracker st) (max (prev_close pv) spot) (min (prev_close pv) spot) spot of
        Inl e \<Rightarrow> Inl e
      | Inr (t', v) \<Rightarrow>
          Inr (st\<lparr>bars := bars st @ [flat_bar (floor_15m nowi) spot],
                  last_completed := Some (floor_15m nowi - 900000000),
                  adx_tracker := t'\<rparr>,
               Some \<lparr>day_high = max (prev_close pv) spot, day_low = min (prev_close pv) spot,
                     day_close = spot, adx_val = v,
                     sig_val = four_bar_signal
                       (filter (\<lambda>b. bar_datetime b \<le> floor_15m nowi - 900000000) (bars st))\<rparr>))"
proof -
  define slot where "slot = floor_15m nowi"
  define completed where "completed = slot - 900000000"
  define bs' where "bs' = bars st @ [flat_bar slot spot]"
  have ag: "aggregate (bars st) slot spot = bs'"
    using assms(2,3) by (simp add: aggregate_eq slot_def bs'_def)
  have ne: "bs' \<noteq> []" and la: "last bs' = flat_bar slot spot" by (simp_all add: bs'_def)
  have fl: "filter (\<lambda>b. bar_datetime b \<le> completed) bs' =
      filter (\<lambda>b. bar_datetime b \<le> completed) (bars st)"
    by (simp add: flat_bar_def bs'_def completed_def)
  have lc: "completed > lc" using assms(5) by (simp add: slot_def completed_def)
  have t: "tick st nowi spot = evaluate (st\<lparr>bars := bs'\<rparr>) slot spot"
    using assms(1) by (simp add: tick_def slot_def[symmetric] ag)
  have g: "\<not> 4 \<le> length df \<Longrightarrow> None = four_bar_signal df" for df
    by (simp add: four_bar_signal_def)
  have e: "evaluate (st\<lparr>bars := bs'\<rparr>) slot spot =
     (case update (adx_tracker st) (max (prev_close pv) spot) (min (prev_close pv) spot) spot of
        Inl e \<Rightarrow> Inl e
      | Inr (t', v) \<Rightarrow>
          Inr (st\<lparr>bars := bs', last_completed := Some completed, adx_tracker := t'\<rparr>,
               Some \<lparr>day_high = max (prev_close pv) spot, day_low = min (prev_close pv) spot,
                     day_close = spot, adx_val = v,
                     sig_val = four_bar_signal
                       (filter (\<lambda>b. bar_datetime b \<le> completed) (bars st))\<rparr>))"
    unfolding evaluate_def Let_def completed_def[symmetric]
    using assms(4,6,7) lc ne
    by (simp add: la fl g flat_bar_def split: sum.splits prod.splits)
  show ?thesis unfolding t e unfolding bs'_def completed_def slot_def ..
qed

text \<open>
  The state after two samples and a third sample of 95 at 0:15 satisfy the hypotheses of
  the amended C7.
\<close>

theorem tick_feeds_new_bucket_witness:
  "tick two_ticks_state 900000000 95 =
     Inr (two_ticks_state
            \<lparr>bars := bars two_ticks_state @ [flat_bar 900000000 95],
             last_completed := Some 0,
             adx_tracker := \<lparr>period = 14, ready = True,
               prev = Some \<lparr>prev_close = 95, prev_high = 100, prev_low = 95,
                            tr_s = 980000000169 / 196000000000, plus_dm_s = 0,
                            minus_dm_s = 5, adx = 100\<rparr>\<rparr>\<rparr>,
          Some \<lparr>day_high = 100, day_low = 95, day_close = 95, adx_val = 100,
                sig_val = None\<rparr>)"
proof -
  let ?pv = "\<lparr>prev_close = 100, prev_high = 100, prev_low = 100, tr_s = 13 / 14000000000,
              plus_dm_s = 0, minus_dm_s = 0, adx = 0\<rparr>"
  have h: "(95::real) \<noteq> 0" "bars two_ticks_state \<noteq> []"
    "bar_datetime (last (bars two_ticks_state)) < floor_15m 900000000"
    "last_completed two_ticks_state = Some (- 900000000)"
    "- 900000000 < floor_15m 900000000 - 900000000"
    "ready (adx_tracker two_ticks_state)"
    "prev (adx_tracker two_ticks_state) = Some ?pv"
    by (simp_all add: two_ticks_state_def floor_15m_900)
  have u: "update (adx_tracker two_ticks_state) (max (prev_close ?pv) 95)
             (min (prev_close ?pv) 95) 95 =
      Inr (\<lparr>period = 14, ready = True,
             prev = Some \<lparr>prev_close = 95, prev_high = 100, prev_low = 95,
                          tr_s = 980000000169 / 196000000000, plus_dm_s = 0,
                          minus_dm_s = 5, adx = 100\<rparr>\<rparr>, 100)"
    by (simp add: update_def two_ticks_state_def directional_moves_def Let_def)
  have f: "four_bar_signal
      (filter (\<lambda>b. bar_datetime b \<le> floor_15m 900000000 - 900000000) (bars two_ticks_state)) = None"
    by (simp add: four_bar_signal_def two_ticks_state_def)
  show ?thesis
    unfolding tick_feeds_new_bucket [OF h] u f by (simp add: floor_15m_900)
qed

section \<open>The paper broker\<close>

lemma get_lot_size_50: "get_lot_size nm = 50"
  by (simp add: get_lot_size_def NSE_LOT_SIZE_def)

lemma enter_accepts:
  assumes "position b = None" "\<not> capital b < price * 50"
  shows "enter b sd price ct ts now =
     (b\<lparr>position := Some \<lparr>side = sd,
                            entry = price + (if sd = ''LONG'' then slippage_pct b * price
                                             else - slippage_pct b * price),
                            qty = 50, pos_contract = ct\<rparr>,
        open_time := Some (timestamp_or ts now),
        capital := capital b - price * 50,
        log_lines := log_lines b @
          [\<lparr>event = ''OPEN'', log_message = Entered sd, log_capital = capital b - price * 50,
            log_time = now,
            log_extra = Open_extra (price + (if sd = ''LONG'' then slippage_pct b * price
                                             else - slippage_pct b * price))
                          ct 50 (capital b - price * 50) (timestamp_or ts now)\<rparr>]\<rparr>, True)"
  using assms by (simp add: enter_def get_lot_size_50 log_event_def Let_def)

lemma enter_rejects_open:
  assumes "position b \<noteq> None"
  shows "enter b sd price ct ts now =
     (b\<lparr>log_lines := log_lines b @
          [\<lparr>event = ''REJECTED'', log_message = Already_in_position, log_capital = capital b,
            log_time = now, log_extra = No_extra\<rparr>]\<rparr>, False)"
  using assms by (simp add: enter_def log_event_def)

lemma enter_rejects_capital:
  assumes "position b = None" "capital b < price * 50"
  shows "enter b sd price ct ts now =
     (b\<lparr>log_lines := log_lines b @
          [\<lparr>event = ''REJECTED'', log_message = Insufficient_capital (capital b) (price * 50),
            log_capital = capital b, log_time = now, log_extra = No_extra\<rparr>]\<rparr>, False)"
  using assms by (simp add: enter_def get_lot_size_50 log_event_def Let_def)

lemma exit_rejects:
  assumes "position b = None"
  shows "exit b price ts rsn now =
     (b\<lparr>log_lines := log_lines b @
          [\<lparr>event = ''REJECTED'', log_message = No_open_position_to_exit,
            log_capital = capital b, log_time = now, log_extra = No_extra\<rparr>]\<rparr>, None)"
  using assms by (simp add: exit_def log_event_def)

lemma exit_accepts:
  assumes "position b = Some pos"
  shows "exit b price ts rsn now =
     (let fill = price - (if side pos = ''LONG'' then slippage_pct b * price
                          else - slippage_pct b * price);
          pl = (if side pos = ''LONG'' then (fill - entry pos) * real_of_int (qty pos)
                else (entry pos - fill) * real_of_int (qty pos));
          tr = \<lparr>trade_side = side pos, entry_price = entry pos, exit_price = fill,
                trade_qty = qty pos, trade_contract = pos_contract pos,
                entry_time = open_time b, exit_time = timestamp_or ts now, pnl = pl,
                capital_post = capital b + fill * real_of_int (qty pos), reason = rsn\<rparr>
      in (b\<lparr>capital := capital b + fill * real_of_int (qty pos),
             closed_trades := closed_trades b @ [tr], position := None, open_time := None,
             log_lines := log_lines b @
               [\<lparr>event = ''CLOSE'', log_message = Closed_position,
                 log_capital = capital b + fill * real_of_int (qty pos), log_time = now,
                 log_extra = Close_extra tr\<rparr>]\<rparr>, Some pl))"
  using assms by (simp add: exit_def log_event_def Let_def)

text \<open>
  Claim C4. A rejected operation changes nothing but the log, to which it appends one
  REJECTED record: \<open>enter\<close> while a position is held, \<open>enter\<close> with capital below
  price times lot size, and \<open>exit\<close> while flat each return failure, and the broker they
  leave is the old one with that record appended, so capital, position, open time and
  closed trades are as they were.
\<close>

theorem rejected_operations_only_log:
  "(position b \<noteq> None \<longrightarrow>
      enter b sd price ct ts now =
        (b\<lparr>log_lines := log_lines b @
             [\<lparr>event = ''REJECTED'', log_message = Already_in_position,
               log_capital = capital b, log_time = now, log_extra = No_extra\<rparr>]\<rparr>, False)) \<and>
   (position b = None \<and>
    capital b < price * real_of_int (get_lot_size (case symbol ct of None \<Rightarrow> ''NIFTY'' | Some nm \<Rightarrow> nm)) \<longrightarrow>
      enter b sd price ct ts now =
        (b\<lparr>log_lines := log_lines b @
             [\<lparr>event = ''REJECTED'',
               log_message = Insufficient_capital (capital b) (price * 50),
               log_capital = capital b, log_time = now, log_extra = No_extra\<rparr>]\<rparr>, False)) \<and>
   (position b = None \<longrightarrow>
      exit b price ts rsn now =
        (b\<lparr>log_lines := log_lines b @
             [\<lparr>event = ''REJECTED'', log_message = No_open_position_to_exit,
               log_capital = capital b, log_time = now, log_extra = No_extra\<rparr>]\<rparr>, None))"
  using enter_rejects_open[of b sd price ct ts now] enter_rejects_capital[of b price sd ct ts now]
    exit_rejects[of b price ts rsn now]
  by (simp add: get_lot_size_50)

text \<open>
  Claim C3. \<open>enter\<close> succeeds exactly when the broker is flat and the capital covers
  price times 50; then the recorded entry price is \<open>price * (1 + slippage)\<close> for LONG and
  \<open>price * (1 - slippage)\<close> otherwise (SHORT), the quantity is the lot size of the
  contract's symbol, which is 50 (for NIFTY and for any other symbol), and the capital is
  debited by the unadjusted price times the quantity.
\<close>

theorem enter_fill_and_debit:
  "snd (enter b sd price ct ts now) = (position b = None \<and> price * 50 \<le> capital b) \<and>
   (snd (enter b sd price ct ts now) \<longrightarrow>
      position (fst (enter b sd price ct ts now)) =
        Some \<lparr>side = sd,
              entry = (if sd = ''LONG'' then price * (1 + slippage_pct b)
                       else price * (1 - slippage_pct b)),
              qty = get_lot_size (case symbol ct of None \<Rightarrow> ''NIFTY'' | Some nm \<Rightarrow> nm),
              pos_contract = ct\<rparr> \<and>
      get_lot_size (case symbol ct of None \<Rightarrow> ''NIFTY'' | Some nm \<Rightarrow> nm) = 50 \<and>
      get_lot_size ''NIFTY'' = 50 \<and>
      capital (fst (enter b sd price ct ts now)) =
        capital b - price * real_of_int (get_lot_size (case symbol ct of None \<Rightarrow> ''NIFTY'' | Some nm \<Rightarrow> nm)))"
proof (cases "position b = None")
  case False
  then show ?thesis by (simp add: enter_rejects_open)
next
  case True
  show ?thesis
  proof (cases "capital b < price * 50")
    case c: True
    then show ?thesis using True by (simp add: enter_rejects_capital)
  next
    case c: False
    show ?thesis using True c
      by (simp add: enter_accepts[OF True c] get_lot_size_50 algebra_simps)
  qed
qed

text \<open>
  The three rejections of C4 on a fresh broker of capital 100000: a second entry, an
  entry at price 2001 (cost 100050), and an exit while flat.
\<close>

theorem rejected_operations_only_log_witness:
  "enter (fst (enter fresh_broker ''LONG'' 100 atm_call None ''t0'')) ''LONG'' 100 atm_call None ''t1'' =
     ((fst (enter fresh_broker ''LONG'' 100 atm_call None ''t0''))
        \<lparr>log_lines := log_lines (fst (enter fresh_broker ''LONG'' 100 atm_call None ''t0'')) @
           [\<lparr>event = ''REJECTED'', log_message = Already_in_position, log_capital = 95000,
             log_time = ''t1'', log_extra = No_extra\<rparr>]\<rparr>, False) \<and>
   enter fresh_broker ''LONG'' 2001 atm_call None ''t0'' =
     (fresh_broker\<lparr>log_lines :=
        [\<lparr>event = ''REJECTED'', log_message = Insufficient_capital 100000 100050,
          log_capital = 100000, log_time = ''t0'', log_extra = No_extra\<rparr>]\<rparr>, False) \<and>
   exit fresh_broker 110 None (Some ''t'') ''t0'' =
     (fresh_broker\<lparr>log_lines :=
        [\<lparr>event = ''REJECTED'', log_message = No_open_position_to_exit,
          log_capital = 100000, log_time = ''t0'', log_extra = No_extra\<rparr>]\<rparr>, None)"
proof -
  let ?b1 = "fst (enter fresh_broker ''LONG'' 100 atm_call None ''t0'')"
  have f: "position fresh_broker = None" "capital fresh_broker = 100000"
    "log_lines fresh_broker = []"
    by (simp_all add: fresh_broker_def PaperBroker_init_def)
  have o: "position ?b1 \<noteq> None" "capital ?b1 = 95000"
    using f by (simp_all add: enter_accepts)
  have c: "position fresh_broker = None \<and>
      capital fresh_broker < 2001 * real_of_int (get_lot_size (case symbol atm_call of None \<Rightarrow> ''NIFTY'' | Some nm \<Rightarrow> nm))"
    using f by (simp add: get_lot_size_50)
  show ?thesis
    using rejected_operations_only_log [of ?b1 "''LONG''" 100 atm_call None "''t1''"] o
      rejected_operations_only_log [of fresh_broker "''LONG''" 2001 atm_call None "''t0''"] c
      rejected_operations_only_log [where b = fresh_broker and price = 110 and ts = None
        and rsn = "Some ''t''" and now = "''t0''"] f
    by simp
qed

text \<open>
  A LONG and a SHORT entry at price 100 on a fresh broker with slippage 0.001.
\<close>

theorem enter_fill_and_debit_witness:
  "position (fst (enter fresh_broker ''LONG'' 100 atm_call None ''t0'')) =
     Some \<lparr>side = ''LONG'', entry = 1001 / 10, qty = 50, pos_contract = atm_call\<rparr> \<and>
   capital (fst (enter fresh_broker ''LONG'' 100 atm_call None ''t0'')) = 95000 \<and>
   position (fst (enter fresh_broker ''SHORT'' 100 atm_call None ''t0'')) =
     Some \<lparr>side = ''SHORT'', entry = 999 / 10, qty = 50, pos_contract = atm_call\<rparr> \<and>
   capital (fst (enter fresh_broker ''SHORT'' 100 atm_call None ''t0'')) = 95000"
proof -
  have f: "position fresh_broker = None" "capital fresh_broker = 100000"
    "slippage_pct fresh_broker = 1 / 1000"
    by (simp_all add: fresh_broker_def PaperBroker_init_def)
  show ?thesis
    using enter_fill_and_debit [of fresh_broker "''LONG''" 100 atm_call None "''t0''"]
      enter_fill_and_debit [of fresh_broker "''SHORT''" 100 atm_call None "''t0''"] f
    by simp
qed

lemma exit_fill_eq:
  "price - (if sd = ''LONG'' then s * price else - s * price) =
     (if sd = ''LONG'' then price * (1 - s) else price * (1 + s :: real))"
  by (simp add: algebra_simps)

text \<open>
  Claim C2. On a flat broker with slippage 0.001 and capital of at least 5000, entering
  LONG at 100 and exiting at 110 gives the entry fill 100.1, the exit fill 109.89 and the
  pnl \<open>(109.89 - 100.1) * 50 = 489.5\<close>. In general \<open>exit\<close> on a held position fills at
  \<open>price * (1 - slippage)\<close> for LONG and \<open>price * (1 + slippage)\<close> otherwise (SHORT),
  the pnl is \<open>(fill - entry) * qty\<close> for LONG and \<open>(entry - fill) * qty\<close> otherwise,
  the capital is credited \<open>fill * qty\<close>, and the trade is appended to the history.
\<close>

theorem round_trip_and_exit_fill:
  "(position b = None \<and> slippage_pct b = 1 / 1000 \<and> 100 * 50 \<le> capital b \<longrightarrow>
      snd (enter b ''LONG'' 100 ct ts now) \<and>
      position (fst (enter b ''LONG'' 100 ct ts now)) =
        Some \<lparr>side = ''LONG'', entry = 1001 / 10, qty = 50, pos_contract = ct\<rparr> \<and>
      snd (exit (fst (enter b ''LONG'' 100 ct ts now)) 110 ts' rsn now') = Some (4895 / 10) \<and>
      exit_price (last (closed_trades
        (fst (exit (fst (enter b ''LONG'' 100 ct ts now)) 110 ts' rsn now')))) = 10989 / 100 \<and>
      (4895 / 10 :: real) = (10989 / 100 - 1001 / 10) * 50) \<and>
   (position b = Some pos \<longrightarrow>
      (let fill = (if side pos = ''LONG'' then price * (1 - slippage_pct b)
                   else price * (1 + slippage_pct b));
           pl = (if side pos = ''LONG'' then (fill - entry pos) * real_of_int (qty pos)
                 else (entry pos - fill) * real_of_int (qty pos))
       in snd (exit b price ts rsn now) = Some pl \<and>
          capital (fst (exit b price ts rsn now)) = capital b + fill * real_of_int (qty pos) \<and>
          position (fst (exit b price ts rsn now)) = None \<and>
          closed_trades (fst (exit b price ts rsn now)) =
            closed_trades b @
              [\<lparr>trade_side = side pos, entry_price = entry pos, exit_price = fill,
                trade_qty = qty pos, trade_contract = pos_contract pos,
                entry_time = open_time b, exit_time = timestamp_or ts now, pnl = pl,
                capital_post = capital b + fill * real_of_int (qty pos), reason = rsn\<rparr>]))"
proof (intro conjI impI)
  assume h: "position b = None \<and> slippage_pct b = 1 / 1000 \<and> 100 * 50 \<le> capital b"
  then have p: "position b = None" and c: "\<not> capital b < 100 * 50" and s: "slippage_pct b = 1 / 1000"
    by simp_all
  note e = enter_accepts[OF p c, of "''LONG''" ct ts now]
  let ?b1 = "fst (enter b ''LONG'' 100 ct ts now)"
  have p1: "position ?b1 = Some \<lparr>side = ''LONG'', entry = 1001 / 10, qty = 50, pos_contract = ct\<rparr>"
    and s1: "slippage_pct ?b1 = 1 / 1000"
    using s by (simp_all add: e)
  show "snd (enter b ''LONG'' 100 ct ts now)" by (simp add: e)
  show "position ?b1 = Some \<lparr>side = ''LONG'', entry = 1001 / 10, qty = 50, pos_contract = ct\<rparr>"
    by (rule p1)
  show "snd (exit ?b1 110 ts' rsn now') = Some (4895 / 10)"
    by (simp add: exit_accepts[OF p1] s1 Let_def)
  show "exit_price (last (closed_trades (fst (exit ?b1 110 ts' rsn now')))) = 10989 / 100"
    by (simp add: exit_accepts[OF p1] s1 Let_def)
  show "(4895 / 10 :: real) = (10989 / 100 - 1001 / 10) * 50" by simp
next
  assume p: "position b = Some pos"
  show "let fill = (if side pos = ''LONG'' then price * (1 - slippage_pct b)
                   else price * (1 + slippage_pct b));
           pl = (if side pos = ''LONG'' then (fill - entry pos) * real_of_int (qty pos)
                 else (entry pos - fill) * real_of_int (qty pos))
       in snd (exit b price ts rsn now) = Some pl \<and>
          capital (fst (exit b price ts rsn now)) = capital b + fill * real_of_int (qty pos) \<and>
          position (fst (exit b price ts rsn now)) = None \<and>
          closed_trades (fst (exit b price ts rsn now)) =
            closed_trades b @
              [\<lparr>trade_side = side pos, entry_price = entry pos, exit_price = fill,
                trade_qty = qty pos, trade_contract = pos_contract pos,
                entry_time = open_time b, exit_time = timestamp_or ts now, pnl = pl,
                capital_post = capital b + fill * real_of_int (qty pos), reason = rsn\<rparr>]"
    unfolding exit_accepts[OF p] exit_fill_eq Let_def by simp
qed

text \<open>
  The round trip of C2 on a fresh broker, and the exit of a SHORT position.
\<close>

theorem round_trip_and_exit_fill_witness:
  "snd (exit (fst (enter fresh_broker ''LONG'' 100 atm_call None ''t0'')) 110 None (Some ''t'') ''t1'') =
     Some (4895 / 10) \<and>
   snd (exit (fst (enter fresh_broker ''SHORT'' 100 atm_call None ''t0''))
        110 None (Some ''t'') ''t1'') = Some (- 5105 / 10) \<and>
   capital (fst (exit (fst (enter fresh_broker ''SHORT'' 100 atm_call None ''t0''))
        110 None (Some ''t'') ''t1'')) = 95000 + 11011 / 100 * 50"
proof -
  let ?sh = "fst (enter fresh_broker ''SHORT'' 100 atm_call None ''t0'')"
  have f0: "position fresh_broker = None" "\<not> capital fresh_broker < 100 * 50"
    "slippage_pct fresh_broker = 1 / 1000" "capital fresh_broker = 100000"
    by (simp_all add: fresh_broker_def PaperBroker_init_def)
  have f: "position fresh_broker = None \<and> slippage_pct fresh_broker = 1 / 1000 \<and>
      100 * 50 \<le> capital fresh_broker"
    by (simp add: fresh_broker_def PaperBroker_init_def)
  have g: "position ?sh =
      Some \<lparr>side = ''SHORT'', entry = 999 / 10, qty = 50, pos_contract = atm_call\<rparr>"
    "slippage_pct ?sh = 1 / 1000" "capital ?sh = 95000"
    by (simp_all add: enter_accepts[OF f0(1,2)] f0(3,4))
  show ?thesis
    using round_trip_and_exit_fill [where b = fresh_broker and ct = atm_call and ts = None
        and now = "''t0''" and ts' = None and rsn = "Some ''t''" and now' = "''t1''"] f
      round_trip_and_exit_fill [where b = ?sh and price = 110 and ts = None
        and now = "''t1''" and rsn = "Some ''t''"
        and pos = "\<lparr>side = ''SHORT'', entry = 999 / 10, qty = 50, pos_contract = atm_call\<rparr>"] g
    by (simp add: Let_def)
qed





end
